theory Spec2Isabelle
  imports Complex_Main
begin

section \<open>Numbers and strings of the host language\<close>

text \<open>
  The program is JavaScript (\<^verbatim>\<open>src/main.js\<close>). Its numbers are IEEE doubles. Tile
  indices, levels and counters are integer valued and are modelled as \<open>int\<close> and
  \<open>nat\<close>; resolutions, origins, tile sizes and extents are modelled as exact rationals
  (every finite double is a rational). The rounding of the double arithmetic is not
  modelled, and neither are magnitudes from \<open>10^21\<close> on, where the number-to-string
  conversions switch to exponent notation. A division by zero, which yields an infinity
  or NaN in the source, is a \<open>None\<close> of the model.
\<close>

definition digit_char :: "int \<Rightarrow> char" where
  \<comment> \<open>the digit alphabet \<^verbatim>\<open>0-9a-z\<close> of \<^verbatim>\<open>Number.prototype.toString\<close>\<close>
  "digit_char d = (if d < 10 then char_of (48 + d) else char_of (87 + d))"

function digits_radix :: "int \<Rightarrow> int \<Rightarrow> string" where
  "digits_radix b n =
     (if b < 2 \<or> n < b then [digit_char n]
      else digits_radix b (n div b) @ [digit_char (n mod b)])"
  by pat_completeness auto
termination
  by (relation "measure (\<lambda>(b, n). nat n)") (auto intro: int_div_less_self)

declare digits_radix.simps [simp del]

definition toString_radix :: "int \<Rightarrow> int \<Rightarrow> string" where
  \<comment> \<open>\<^verbatim>\<open>n.toString(b)\<close> for an integer-valued number: a minus sign, then the digits\<close>
  "toString_radix b n =
     (if n < 0 then CHR ''-'' # digits_radix b (- n) else digits_radix b n)"

definition padStart :: "nat \<Rightarrow> char \<Rightarrow> string \<Rightarrow> string" where
  \<comment> \<open>\<^verbatim>\<open>s.padStart(n, c)\<close> with a one-character filler: a string of length \<open>n\<close> or more
      is returned as it is\<close>
  "padStart n c s = replicate (n - length s) c @ s"

definition upper_char :: "char \<Rightarrow> char" where
  "upper_char c =
     (if (97::int) \<le> of_char c \<and> of_char c \<le> (122::int)
      then char_of (of_char c - (32::int)) else c)"

definition toUpperCase :: "string \<Rightarrow> string" where
  \<comment> \<open>on the ASCII strings that occur here\<close>
  "toUpperCase s = map upper_char s"


section \<open>Cache key naming\<close>

record arcgis_names =
  L :: string
  R :: string
  C :: string

definition toArcGISNames :: "int \<Rightarrow> int \<Rightarrow> int \<Rightarrow> arcgis_names" where
  "toArcGISNames z x y =
     \<lparr> L = CHR ''L'' # padStart 2 CHR ''0'' (toString_radix 10 z),
       R = CHR ''R'' # toUpperCase (padStart 8 CHR ''0'' (toString_radix 16 y)),
       C = CHR ''C'' # toUpperCase (padStart 8 CHR ''0'' (toString_radix 16 x)) \<rparr>"


section \<open>Tile range of an extent\<close>

datatype tile_size = TileSizeNumber rat | TileSizeArray "rat list"

record tile_grid =
  getOrigin :: "rat \<times> rat"
  getTileSize :: tile_size

record tile_range =
  minX :: int
  maxX :: int
  minY :: int
  maxY :: int

type_synonym extent = "rat \<times> rat \<times> rat \<times> rat"

definition squareTileSize :: "tile_size \<Rightarrow> rat option" where
  \<comment> \<open>\<^verbatim>\<open>if (Array.isArray(tileSize)) tileSize = tileSize[0]\<close>; the first element of an
      empty array is \<^verbatim>\<open>undefined\<close>, which makes all later arithmetic NaN\<close>
  "squareTileSize ts =
     (case ts of
        TileSizeNumber n \<Rightarrow> Some n
      | TileSizeArray a \<Rightarrow> (case a of [] \<Rightarrow> None | w # _ \<Rightarrow> Some w))"

definition tileRangeForExtent :: "tile_grid \<Rightarrow> extent \<Rightarrow> rat \<Rightarrow> tile_range option" where
  "tileRangeForExtent tileGrid extent res =
     (case extent of (xmin, ymin, xmax, ymax) \<Rightarrow>
      case getOrigin tileGrid of (originX, originY) \<Rightarrow>
      case squareTileSize (getTileSize tileGrid) of
        None \<Rightarrow> None
      | Some tileSize \<Rightarrow>
          if res * tileSize = 0 then None
          else Some \<lparr> minX = \<lfloor>(xmin - originX) / (res * tileSize)\<rfloor>,
                      maxX = \<lfloor>(xmax - originX) / (res * tileSize)\<rfloor>,
                      minY = \<lfloor>(originY - ymax) / (res * tileSize)\<rfloor>,
                      maxY = \<lfloor>(originY - ymin) / (res * tileSize)\<rfloor> \<rparr>)"


section \<open>World file\<close>

text \<open>
  The array literal of lines 360-367 holds strings and numbers; \<^verbatim>\<open>join\<close> converts each
  element to a string. \<open>JNaN\<close> is the number NaN.
\<close>

datatype jsval = JString string | JNumber rat | JNaN

definition toFixed :: "nat \<Rightarrow> rat \<Rightarrow> string" where
  \<comment> \<open>\<^verbatim>\<open>x.toFixed(f)\<close>: the sign, then the integer \<open>n\<close> nearest to \<open>\<bar>x\<bar> * 10^f\<close> (the
      larger one on a tie), written with at least \<open>f + 1\<close> digits and a point before the
      last \<open>f\<close>\<close>
  "toFixed f x =
     (let n = \<lfloor>\<bar>x\<bar> * 10 ^ f + 1 / 2\<rfloor>;
          m = padStart (f + 1) CHR ''0'' (digits_radix 10 n);
          k = length m - f
      in (if x < 0 then ''-'' else []) @
         (if f = 0 then m else take k m @ ''.'' @ drop k m))"

definition digit_value :: "char \<Rightarrow> int" where
  "digit_value c =
     (let k = of_char c :: int in
      if 48 \<le> k \<and> k \<le> 57 then k - 48
      else if 65 \<le> k \<and> k \<le> 90 then k - 55
      else if 97 \<le> k \<and> k \<le> 122 then k - 87
      else 0)"

definition value_radix :: "int \<Rightarrow> string \<Rightarrow> int" where
  \<comment> \<open>the number that a string of digits denotes in base \<open>b\<close>, most significant digit
      first\<close>
  "value_radix b s = foldl (\<lambda>acc c. acc * b + digit_value c) 0 s"

definition is_decimal_digit :: "char \<Rightarrow> bool" where
  "is_decimal_digit c = ((48::int) \<le> of_char c \<and> of_char c \<le> (57::int))"

definition unsigned_decimal :: "string \<Rightarrow> rat option" where
  \<comment> \<open>digits, optionally a point and more digits, with a digit on at least one side\<close>
  "unsigned_decimal s =
     (let ip = takeWhile (\<lambda>c. c \<noteq> CHR ''.'') s;
          fp = drop 1 (dropWhile (\<lambda>c. c \<noteq> CHR ''.'') s)
      in if (ip = [] \<and> fp = []) \<or> \<not> list_all is_decimal_digit ip \<or> \<not> list_all is_decimal_digit fp
         then None
         else Some (of_int (value_radix 10 ip) + of_int (value_radix 10 fp) / 10 ^ length fp))"

definition string_to_number :: "string \<Rightarrow> rat option" where
  \<comment> \<open>the conversion of a string to a number, on signed decimal literals; \<open>None\<close> is NaN.
      Literals with an exponent, a radix prefix, \<^verbatim>\<open>Infinity\<close> or white space are not
      modelled: \<open>toFixed\<close> produces none of them\<close>
  "string_to_number s =
     (case s of
        [] \<Rightarrow> Some 0
      | c # t \<Rightarrow>
          if c = CHR ''-'' then map_option uminus (unsigned_decimal t)
          else if c = CHR ''+'' then unsigned_decimal t
          else unsigned_decimal s)"

definition js_negate :: "jsval \<Rightarrow> jsval" where
  \<comment> \<open>prefix minus: a string operand is first converted to a number\<close>
  "js_negate v =
     (case v of
        JNumber q \<Rightarrow> JNumber (- q)
      | JNaN \<Rightarrow> JNaN
      | JString s \<Rightarrow> (case string_to_number s of None \<Rightarrow> JNaN | Some q \<Rightarrow> JNumber (- q)))"



definition worldFileLines :: "rat \<times> rat \<Rightarrow> rat option \<Rightarrow> rat \<Rightarrow> int \<Rightarrow> int \<Rightarrow> jsval list" where
  \<comment> \<open>the array of lines 360-367; \<open>tileSize\<close> is \<open>None\<close> when it is \<^verbatim>\<open>undefined\<close>\<close>
  "worldFileLines origin tileSize res x y =
     [ JString (toFixed 6 res),
       JString ''0'',
       JString ''0'',
       js_negate (JString (toFixed 6 res)),
       (case tileSize of None \<Rightarrow> JNaN | Some t \<Rightarrow> JNumber (fst origin + of_int x * res * t)),
       (case tileSize of None \<Rightarrow> JNaN | Some t \<Rightarrow> JNumber (snd origin - of_int y * res * t)) ]"






section \<open>Pyramid descriptor\<close>

record lod =
  level :: int
  resolution :: rat
  scale :: rat

record metadata =
  url :: string
  tileInfo_lods :: "lod list"
  tileInfo_origin :: "rat \<times> rat"
  tileInfo_size :: "rat list"




section \<open>Files, network and the state of a run\<close>

text \<open>
  A file is addressed by the name of its level directory and its own name. The content
  of a world file is kept as the array of its lines; the content of the conversion script
  by the coordinate system identifier that the fixed template is filled with.
\<close>

datatype file_content = Bytes string | Lines "jsval list" | ConvertScript string

type_synonym path = "string \<times> string"

datatype fs_op =
    Probe path
  | GetFileHandle path
  | CreateWritable path
  | PipeTo path
  | WriteFile path
  | CloseFile path
  | GetDirectoryHandle string
  | ShowDirectoryPicker

datatype response = Response (ok: bool) (contentType: "string option") (body: string)

datatype fetch_result = NetworkError | Resolved response

text \<open>
  The environment of a run: what the network answers for a URL (a rejected promise or a
  response), which file system operations reject, whether the browser has a directory
  picker, and the coordinate system identifier.
\<close>

record environment =
  fetch :: "string \<Rightarrow> fetch_result"
  fails :: "fs_op \<Rightarrow> bool"
  hasDirectoryPicker :: bool
  tilesEPSG :: string

datatype fraction = Zero | Ratio nat int

text \<open>
  The state: the files, the two counters, and three logs that the source does not keep
  but its effects are: the URLs fetched, the URLs warned about, and the fractions passed
  to \<^verbatim>\<open>setProgress\<close>.
\<close>

record state =
  files :: "path \<rightharpoonup> file_content"
  requests :: "string list"
  warnings :: "string list"
  downloadedTiles :: nat
  downloadedLevelTiles :: nat
  progress :: "fraction list"

datatype 'a attempt = is_Throws: Throws state | Returns 'a state

definition andThen :: "'a attempt \<Rightarrow> ('a \<Rightarrow> state \<Rightarrow> 'b attempt) \<Rightarrow> 'b attempt" where
  "andThen m f = (case m of Throws s \<Rightarrow> Throws s | Returns a s \<Rightarrow> f a s)"

definition fileExists :: "environment \<Rightarrow> path \<Rightarrow> state \<Rightarrow> bool" where
  \<comment> \<open>\<^verbatim>\<open>getFileHandle(name, {create: false}).then(() => true).catch(() => false)\<close>\<close>
  "fileExists env p s = (\<not> fails env (Probe p) \<and> files s p \<noteq> None)"

definition getFileHandle_create :: "environment \<Rightarrow> path \<Rightarrow> state \<Rightarrow> unit attempt" where
  \<comment> \<open>\<^verbatim>\<open>getFileHandle(name, {create: true})\<close>: a missing file is created empty\<close>
  "getFileHandle_create env p s =
     (if fails env (GetFileHandle p) then Throws s
      else Returns ()
        (s\<lparr>files := (case files s p of None \<Rightarrow> (files s)(p \<mapsto> Bytes []) | Some _ \<Rightarrow> files s)\<rparr>))"

definition createWritable :: "environment \<Rightarrow> path \<Rightarrow> state \<Rightarrow> unit attempt" where
  "createWritable env p s = (if fails env (CreateWritable p) then Throws s else Returns () s)"

definition pipeTo :: "environment \<Rightarrow> path \<Rightarrow> string \<Rightarrow> state \<Rightarrow> unit attempt" where
  \<comment> \<open>the stream is closed at its end, which commits the bytes; a failure leaves the file
      as it was\<close>
  "pipeTo env p bytes s =
     (if fails env (PipeTo p) then Throws s
      else Returns () (s\<lparr>files := (files s)(p \<mapsto> Bytes bytes)\<rparr>))"

definition writeAndClose :: "environment \<Rightarrow> path \<Rightarrow> file_content \<Rightarrow> state \<Rightarrow> unit attempt" where
  \<comment> \<open>\<^verbatim>\<open>await w.write(content); await w.close()\<close>: the content is committed by the close\<close>
  "writeAndClose env p content s =
     (if fails env (WriteFile p) then Throws s
      else if fails env (CloseFile p) then Throws s
      else Returns () (s\<lparr>files := (files s)(p \<mapsto> content)\<rparr>))"

definition writeTextFile :: "environment \<Rightarrow> path \<Rightarrow> file_content \<Rightarrow> state \<Rightarrow> unit attempt" where
  \<comment> \<open>the sequence of lines 354-370 and of lines 390-403: get the handle, creating the
      file; open it for writing; write; close\<close>
  "writeTextFile env p content s =
     andThen (getFileHandle_create env p s) (\<lambda>_ s1.
     andThen (createWritable env p s1) (\<lambda>_ s2.
     writeAndClose env p content s2))"

definition stateOf :: "'a attempt \<Rightarrow> state" where
  "stateOf m = (case m of Throws s \<Rightarrow> s | Returns _ s \<Rightarrow> s)"

definition setProgress :: "fraction \<Rightarrow> state \<Rightarrow> state" where
  "setProgress f s = s\<lparr>progress := progress s @ [f]\<rparr>"


section \<open>One tile\<close>

definition tileUrl :: "metadata \<Rightarrow> lod \<Rightarrow> int \<Rightarrow> int \<Rightarrow> string" where
  "tileUrl md lod x y =
     url md @ ''/'' @ toString_radix 10 (level lod) @ ''/'' @ toString_radix 10 y @ ''/'' @
     toString_radix 10 x"

definition filePath :: "lod \<Rightarrow> int \<Rightarrow> int \<Rightarrow> string \<Rightarrow> string" where
  "filePath lod x y ext =
     (let names = toArcGISNames (level lod) x y in R names @ C names @ ''.'' @ ext)"

definition download ::
  "environment \<Rightarrow> string \<Rightarrow> (string \<Rightarrow> path) \<Rightarrow> state \<Rightarrow> string option attempt" where
  \<comment> \<open>lines 338-350; the result is the new value of \<^verbatim>\<open>imageFileType\<close>, which stays
      \<^verbatim>\<open>null\<close> on a response that is not ok\<close>
  "download env u pathOf s =
     (let s0 = s\<lparr>requests := requests s @ [u]\<rparr> in
      case fetch env u of
        NetworkError \<Rightarrow> Throws s0
      | Resolved resp \<Rightarrow>
          if ok resp then
            (let imageFileType = (if contentType resp = Some ''image/png'' then ''png'' else ''jpeg'');
                 p = pathOf imageFileType
             in andThen (getFileHandle_create env p s0) (\<lambda>_ s1.
                andThen (createWritable env p s1) (\<lambda>_ s2.
                andThen (pipeTo env p (body resp) s2) (\<lambda>_ s3.
                Returns (Some imageFileType) s3))))
          else Returns None s0)"

definition tileTaskBody ::
  "environment \<Rightarrow> metadata \<Rightarrow> rat option \<Rightarrow> int \<Rightarrow> string \<Rightarrow> lod \<Rightarrow> int \<Rightarrow> int \<Rightarrow> state
     \<Rightarrow> unit attempt" where
  \<comment> \<open>the \<^verbatim>\<open>try\<close> block of lines 314-377\<close>
  "tileTaskBody env md tileSize totalCount Ldir lod x y s =
     (let pngExists = fileExists env (Ldir, filePath lod x y ''png'') s;
          jpegExists = fileExists env (Ldir, filePath lod x y ''jpeg'') s;
          imageFileType0 =
            (if pngExists then Some ''png'' else if jpegExists then Some ''jpeg'' else None)
      in andThen
           (if \<not> pngExists \<and> \<not> jpegExists
            then download env (tileUrl md lod x y) (\<lambda>ext. (Ldir, filePath lod x y ext)) s
            else Returns imageFileType0 s)
           (\<lambda>imageFileType s1.
              let worldFile =
                    (Ldir, filePath lod x y (if imageFileType = Some ''png'' then ''pgw'' else ''jgw''))
              in andThen (writeTextFile env worldFile
                            (Lines (worldFileLines (tileInfo_origin md) tileSize (resolution lod) x y))
                            s1) (\<lambda>_ s2.
                 Returns ()
                   (setProgress (Ratio (downloadedTiles s2 + 1) totalCount)
                      (s2\<lparr>downloadedTiles := downloadedTiles s2 + 1,
                          downloadedLevelTiles := downloadedLevelTiles s2 + 1\<rparr>)))))"

definition tileTask ::
  "environment \<Rightarrow> metadata \<Rightarrow> rat option \<Rightarrow> int \<Rightarrow> string \<Rightarrow> lod \<Rightarrow> int \<Rightarrow> int \<Rightarrow> state
     \<Rightarrow> state" where
  \<comment> \<open>the task with its \<^verbatim>\<open>catch\<close> handler, lines 378-380: it never throws\<close>
  "tileTask env md tileSize totalCount Ldir lod x y s =
     (case tileTaskBody env md tileSize totalCount Ldir lod x y s of
        Returns _ s' \<Rightarrow> s'
      | Throws s' \<Rightarrow> s'\<lparr>warnings := warnings s' @ [tileUrl md lod x y]\<rparr>)"


section \<open>Levels and the run\<close>


definition levelTasks ::
  "environment \<Rightarrow> metadata \<Rightarrow> rat option \<Rightarrow> int \<Rightarrow> string \<Rightarrow> lod \<Rightarrow> (int \<times> int) list \<Rightarrow> state
     \<Rightarrow> state" where
  "levelTasks env md tileSize totalCount Ldir lod tiles s =
     foldl (\<lambda>s' (x, y). tileTask env md tileSize totalCount Ldir lod x y s') s tiles"





section \<open>A small pyramid and some environments\<close>

text \<open>Concrete inputs, on which the theorems below are instantiated.\<close>

definition lod0 :: lod where
  "lod0 = \<lparr> level = 0, resolution = 1, scale = 4000 \<rparr>"

definition lod2 :: lod where
  "lod2 = \<lparr> level = 2, resolution = 1 / 4, scale = 1000 \<rparr>"

definition exampleMetadata :: metadata where
  "exampleMetadata =
     \<lparr> url = ''https://tiles.example/tile'',
       tileInfo_lods = [lod0, lod2],
       tileInfo_origin = (0, 0),
       tileInfo_size = [256, 256] \<rparr>"

definition emptyState :: state where
  "emptyState =
     \<lparr> files = Map.empty, requests = [], warnings = [], downloadedTiles = 0,
       downloadedLevelTiles = 0, progress = [] \<rparr>"

definition serverEnv :: "fetch_result \<Rightarrow> environment" where
  "serverEnv answer =
     \<lparr> fetch = (\<lambda>u. answer), fails = (\<lambda>op. False), hasDirectoryPicker = True,
       tilesEPSG = ''EPSG:3857'' \<rparr>"

definition closeFailsEnv :: "fetch_result \<Rightarrow> environment" where
  \<comment> \<open>a disk on which no written file can be closed\<close>
  "closeFailsEnv answer =
     \<lparr> fetch = (\<lambda>u. answer), fails = (\<lambda>op. case op of CloseFile p \<Rightarrow> True | _ \<Rightarrow> False),
       hasDirectoryPicker = True, tilesEPSG = ''EPSG:3857'' \<rparr>"

definition notFound :: fetch_result where
  "notFound = Resolved (Response False (Some ''text/html'') ''Not Found'')"


section \<open>Digits and the numbers they denote\<close>

lemma digit_value_digit_char: "0 \<le> d \<Longrightarrow> d < 36 \<Longrightarrow> digit_value (digit_char d) = d"
  by (auto simp: digit_value_def digit_char_def Let_def)

lemma digit_value_upper_digit_char:
  "0 \<le> d \<Longrightarrow> d < 36 \<Longrightarrow> digit_value (upper_char (digit_char d)) = d"
  by (auto simp: digit_value_def digit_char_def upper_char_def Let_def)

lemma value_radix_snoc: "value_radix b (s @ [c]) = value_radix b s * b + digit_value c"
  by (simp add: value_radix_def)

lemma value_radix_zeros: "value_radix b (replicate k CHR ''0'' @ s) = value_radix b s"
proof -
  have "foldl (\<lambda>acc c. acc * b + digit_value c) 0 (replicate k CHR ''0'') = 0"
    by (induction k) (simp_all add: digit_value_def)
  then show ?thesis by (simp add: value_radix_def)
qed

lemma digits_radix_small: "n < b \<Longrightarrow> digits_radix b n = [digit_char n]"
  by (subst digits_radix.simps) simp

lemma digits_radix_step:
  "2 \<le> b \<Longrightarrow> b \<le> n \<Longrightarrow> digits_radix b n = digits_radix b (n div b) @ [digit_char (n mod b)]"
  by (subst digits_radix.simps) simp

lemma value_radix_upper_digits:
  "2 \<le> b \<Longrightarrow> b \<le> 36 \<Longrightarrow> 0 \<le> n \<Longrightarrow> value_radix b (toUpperCase (digits_radix b n)) = n"
proof (induction b n rule: digits_radix.induct)
  case (1 b n)
  show ?case
  proof (cases "n < b")
    case True
    with 1(2-4) show ?thesis
      by (simp add: digits_radix_small value_radix_def toUpperCase_def digit_value_upper_digit_char)
  next
    case False
    have "0 \<le> n div b" using 1(2,4) by (simp add: pos_imp_zdiv_nonneg_iff)
    with 1 False have "value_radix b (toUpperCase (digits_radix b (n div b))) = n div b" by simp
    moreover have "0 \<le> n mod b" "n mod b < 36" using 1(2,3) by (auto intro: order_less_le_trans [OF pos_mod_bound])
    ultimately show ?thesis using False 1(2)
      by (simp add: digits_radix_step toUpperCase_def value_radix_snoc digit_value_upper_digit_char)
  qed
qed

lemma value_radix_digits:
  "2 \<le> b \<Longrightarrow> b \<le> 36 \<Longrightarrow> 0 \<le> n \<Longrightarrow> value_radix b (digits_radix b n) = n"
proof (induction b n rule: digits_radix.induct)
  case (1 b n)
  show ?case
  proof (cases "n < b")
    case True
    with 1(2-4) show ?thesis
      by (simp add: digits_radix_small value_radix_def digit_value_digit_char)
  next
    case False
    have "0 \<le> n div b" using 1(2,4) by (simp add: pos_imp_zdiv_nonneg_iff)
    with 1 False have "value_radix b (digits_radix b (n div b)) = n div b" by simp
    moreover have "0 \<le> n mod b" "n mod b < 36" using 1(2,3) by (auto intro: order_less_le_trans [OF pos_mod_bound])
    ultimately show ?thesis using False 1(2)
      by (simp add: digits_radix_step value_radix_snoc digit_value_digit_char)
  qed
qed

lemma int_div_less_bound:
  assumes "0 < b" "n < c * b"
  shows "n div b < (c::int)"
proof (rule ccontr)
  assume "\<not> n div b < c"
  then have "c * b \<le> (n div b) * b" using assms(1) by (simp add: mult_right_mono)
  also have "\<dots> \<le> n"
  proof -
    have "n = (n div b) * b + n mod b" by simp
    moreover have "0 \<le> n mod b" using assms(1) by simp
    ultimately show ?thesis by linarith
  qed
  finally show False using assms(2) by simp
qed

lemma length_digits_radix:
  "2 \<le> b \<Longrightarrow> n < b ^ k \<Longrightarrow> 0 < k \<Longrightarrow> length (digits_radix b n) \<le> k"
proof (induction b n arbitrary: k rule: digits_radix.induct)
  case (1 b n)
  show ?case
  proof (cases "n < b")
    case True
    with 1 show ?thesis by (simp add: digits_radix_small)
  next
    case False
    obtain j where k: "k = Suc j" using 1(4) by (cases k) auto
    have "j \<noteq> 0" using False 1(3) k by (cases "j = 0") auto
    moreover have "n div b < b ^ j"
    proof -
      have "n < b ^ j * b" using 1(3) k by (simp add: mult.commute)
      then show ?thesis using 1(2) by (intro int_div_less_bound) simp_all
    qed
    ultimately have "length (digits_radix b (n div b)) \<le> j"
      using 1(1) [of j] False 1(2) by simp
    then show ?thesis using False 1(2) k by (simp add: digits_radix_step)
  qed
qed

lemma digits_radix_chars:
  "2 \<le> b \<Longrightarrow> 0 \<le> n \<Longrightarrow> c \<in> set (digits_radix b n) \<Longrightarrow> \<exists>d. 0 \<le> d \<and> d < b \<and> c = digit_char d"
proof (induction b n rule: digits_radix.induct)
  case (1 b n)
  show ?case
  proof (cases "n < b")
    case True
    with 1(3,4) show ?thesis by (auto simp: digits_radix_small)
  next
    case False
    have m: "0 \<le> n mod b" "n mod b < b" using 1(2) by simp_all
    have d: "0 \<le> n div b" using 1(2,3) by (simp add: pos_imp_zdiv_nonneg_iff)
    from False 1(2,4) have "c \<in> set (digits_radix b (n div b)) \<or> c = digit_char (n mod b)"
      by (auto simp: digits_radix_step)
    then show ?thesis
    proof
      assume "c \<in> set (digits_radix b (n div b))"
      then show ?thesis using 1(1) False 1(2) d by simp
    next
      assume "c = digit_char (n mod b)"
      with m show ?thesis by blast
    qed
  qed
qed

lemma upper_digit_char_hex:
  assumes "0 \<le> d" "d < 16"
  shows "upper_char (digit_char d) \<in> set ''0123456789ABCDEF''"
proof -
  have "d = 0 \<or> d = 1 \<or> d = 2 \<or> d = 3 \<or> d = 4 \<or> d = 5 \<or> d = 6 \<or> d = 7 \<or> d = 8 \<or> d = 9
    \<or> d = 10 \<or> d = 11 \<or> d = 12 \<or> d = 13 \<or> d = 14 \<or> d = 15" using assms by arith
  then show ?thesis
    by (elim disjE) (simp_all add: upper_char_def digit_char_def char_of_eq_iff)
qed

lemma digit_char_decimal:
  assumes "0 \<le> d" "d < 10"
  shows "digit_char d \<in> set ''0123456789''"
proof -
  have "d = 0 \<or> d = 1 \<or> d = 2 \<or> d = 3 \<or> d = 4 \<or> d = 5 \<or> d = 6 \<or> d = 7 \<or> d = 8 \<or> d = 9"
    using assms by arith
  then show ?thesis
    by (elim disjE) (simp_all add: digit_char_def char_of_eq_iff)
qed

lemma upper_char_zero: "upper_char CHR ''0'' = CHR ''0''"
  by (simp add: upper_char_def)

text \<open>A padded numeral of a number below \<open>b^k\<close>: exactly \<open>k\<close> digits, denoting the number.\<close>

lemma padded_digits:
  assumes "2 \<le> b" "b \<le> 36" "0 \<le> n" "n < b ^ k" "0 < k"
  shows "length (padStart k CHR ''0'' (digits_radix b n)) = k"
    and "value_radix b (toUpperCase (padStart k CHR ''0'' (digits_radix b n))) = n"
    and "value_radix b (padStart k CHR ''0'' (digits_radix b n)) = n"
proof -
  have "length (digits_radix b n) \<le> k" using assms by (simp add: length_digits_radix)
  then show "length (padStart k CHR ''0'' (digits_radix b n)) = k"
    by (simp add: padStart_def)
  have "toUpperCase (padStart k CHR ''0'' (digits_radix b n))
      = replicate (k - length (digits_radix b n)) CHR ''0'' @ toUpperCase (digits_radix b n)"
    by (simp add: padStart_def toUpperCase_def upper_char_zero)
  then show "value_radix b (toUpperCase (padStart k CHR ''0'' (digits_radix b n))) = n"
    using assms by (simp add: value_radix_zeros value_radix_upper_digits)
  show "value_radix b (padStart k CHR ''0'' (digits_radix b n)) = n"
    using assms by (simp add: padStart_def value_radix_zeros value_radix_digits)
qed

lemma padded_hex_chars:
  assumes "0 \<le> n"
  shows "set (toUpperCase (padStart k CHR ''0'' (digits_radix 16 n))) \<subseteq> set ''0123456789ABCDEF''"
proof
  fix c assume "c \<in> set (toUpperCase (padStart k CHR ''0'' (digits_radix 16 n)))"
  then have "c = CHR ''0'' \<or> (\<exists>c' \<in> set (digits_radix 16 n). c = upper_char c')"
    by (auto simp: toUpperCase_def padStart_def upper_char_zero)
  then show "c \<in> set ''0123456789ABCDEF''"
  proof
    assume "c = CHR ''0''" then show ?thesis by simp
  next
    assume "\<exists>c' \<in> set (digits_radix 16 n). c = upper_char c'"
    then obtain c' where c': "c' \<in> set (digits_radix 16 n)" "c = upper_char c'" by blast
    from digits_radix_chars [OF _ assms c'(1)] obtain d where "0 \<le> d" "d < 16" "c' = digit_char d"
      by auto
    with c'(2) show ?thesis using upper_digit_char_hex [of d] by simp
  qed
qed

lemma padded_decimal_chars:
  assumes "0 \<le> n"
  shows "set (padStart k CHR ''0'' (digits_radix 10 n)) \<subseteq> set ''0123456789''"
proof
  fix c assume "c \<in> set (padStart k CHR ''0'' (digits_radix 10 n))"
  then have "c = CHR ''0'' \<or> c \<in> set (digits_radix 10 n)"
    by (auto simp: padStart_def)
  then show "c \<in> set ''0123456789''"
  proof
    assume "c = CHR ''0''" then show ?thesis by simp
  next
    assume "c \<in> set (digits_radix 10 n)"
    from digits_radix_chars [OF _ assms this] obtain d where "0 \<le> d" "d < 10" "c = digit_char d"
      by auto
    then show ?thesis using digit_char_decimal [of d] by simp
  qed
qed

lemma level_name:
  assumes "0 \<le> z" "z \<le> 99"
  shows "\<exists>ds. L (toArcGISNames z x y) = CHR ''L'' # ds \<and> length ds = 2 \<and>
              set ds \<subseteq> set ''0123456789'' \<and> value_radix 10 ds = z"
proof -
  have z: "z < 10 ^ 2" using assms(2) by simp
  show ?thesis
    using assms(1) padded_digits(1,3) [OF _ _ assms(1) z] padded_decimal_chars [OF assms(1), of 2]
    by (simp add: toArcGISNames_def toString_radix_def)
qed

lemma hex_name:
  assumes "0 \<le> n" "n < 2 ^ 32"
  shows "\<exists>hs. toUpperCase (padStart 8 CHR ''0'' (toString_radix 16 n)) = hs \<and> length hs = 8 \<and>
              set hs \<subseteq> set ''0123456789ABCDEF'' \<and> value_radix 16 hs = n"
proof -
  have n: "n < 16 ^ 8" using assms(2) by simp
  have "length (toUpperCase (padStart 8 CHR ''0'' (digits_radix 16 n))) = 8"
    using padded_digits(1) [OF _ _ assms(1) n] by (simp add: toUpperCase_def)
  then show ?thesis
    using assms(1) padded_digits(2) [OF _ _ assms(1) n] padded_hex_chars [OF assms(1), of 8]
    by (simp add: toString_radix_def)
qed


section \<open>Cache keys: format and injectivity\<close>

text \<open>
  Claim C5. For a level in \<open>0..99\<close> and column and row indices in \<open>0..2^32 - 1\<close>, \<open>L\<close> is
  the letter L and exactly two decimal digits that denote the level, \<open>R\<close> is the letter R
  and exactly eight upper-case hexadecimal digits that denote the row \<open>y\<close>, \<open>C\<close> is the
  letter C and exactly eight such digits that denote the column \<open>x\<close>; two index triples of
  that space with the same names are the same triple; and the names of level 3, column 10,
  row 255 are \<open>L03\<close>, \<open>R000000FF\<close>, \<open>C0000000A\<close>.
\<close>

theorem toArcGISNames_format_injective:
  assumes "0 \<le> z" "z \<le> 99" "0 \<le> x" "x < 2 ^ 32" "0 \<le> y" "y < 2 ^ 32"
    and "0 \<le> z'" "z' \<le> 99" "0 \<le> x'" "x' < 2 ^ 32" "0 \<le> y'" "y' < 2 ^ 32"
  shows "(\<exists>ds. L (toArcGISNames z x y) = CHR ''L'' # ds \<and> length ds = 2 \<and>
               set ds \<subseteq> set ''0123456789'' \<and> value_radix 10 ds = z) \<and>
         (\<exists>hs. R (toArcGISNames z x y) = CHR ''R'' # hs \<and> length hs = 8 \<and>
               set hs \<subseteq> set ''0123456789ABCDEF'' \<and> value_radix 16 hs = y) \<and>
         (\<exists>hs. C (toArcGISNames z x y) = CHR ''C'' # hs \<and> length hs = 8 \<and>
               set hs \<subseteq> set ''0123456789ABCDEF'' \<and> value_radix 16 hs = x) \<and>
         (toArcGISNames z x y = toArcGISNames z' x' y' \<longrightarrow> z = z' \<and> x = x' \<and> y = y') \<and>
         toArcGISNames 3 10 255 = \<lparr> L = ''L03'', R = ''R000000FF'', C = ''C0000000A'' \<rparr>"
proof (intro conjI impI)
  show "\<exists>ds. L (toArcGISNames z x y) = CHR ''L'' # ds \<and> length ds = 2 \<and>
               set ds \<subseteq> set ''0123456789'' \<and> value_radix 10 ds = z"
    using assms(1,2) by (rule level_name)
  show "\<exists>hs. R (toArcGISNames z x y) = CHR ''R'' # hs \<and> length hs = 8 \<and>
               set hs \<subseteq> set ''0123456789ABCDEF'' \<and> value_radix 16 hs = y"
    using hex_name [OF assms(5,6)] by (simp add: toArcGISNames_def)
  show "\<exists>hs. C (toArcGISNames z x y) = CHR ''C'' # hs \<and> length hs = 8 \<and>
               set hs \<subseteq> set ''0123456789ABCDEF'' \<and> value_radix 16 hs = x"
    using hex_name [OF assms(3,4)] by (simp add: toArcGISNames_def)
  show "toArcGISNames 3 10 255 = \<lparr> L = ''L03'', R = ''R000000FF'', C = ''C0000000A'' \<rparr>"
    by code_simp
next
  assume eq: "toArcGISNames z x y = toArcGISNames z' x' y'"
  have "value_radix 10 (tl (L (toArcGISNames z x y))) = value_radix 10 (tl (L (toArcGISNames z' x' y')))"
    using eq by simp
  moreover have "value_radix 10 (tl (L (toArcGISNames z x y))) = z"
    using level_name [OF assms(1,2), of x y] by auto
  moreover have "value_radix 10 (tl (L (toArcGISNames z' x' y'))) = z'"
    using level_name [OF assms(7,8), of x' y'] by auto
  ultimately show "z = z'" by simp
  have "value_radix 16 (tl (C (toArcGISNames z x y))) = value_radix 16 (tl (C (toArcGISNames z' x' y')))"
    using eq by simp
  then show "x = x'"
    using hex_name [OF assms(3,4)] hex_name [OF assms(9,10)] by (simp add: toArcGISNames_def)
  have "value_radix 16 (tl (R (toArcGISNames z x y))) = value_radix 16 (tl (R (toArcGISNames z' x' y')))"
    using eq by simp
  then show "y = y'"
    using hex_name [OF assms(5,6)] hex_name [OF assms(11,12)] by (simp add: toArcGISNames_def)
qed

text \<open>
  The theorem at level 7, column 4095, row 65536, and at the triple with column and row
  exchanged, whose names differ.
\<close>

theorem toArcGISNames_format_injective_witness:
  "L (toArcGISNames 7 4095 65536) = ''L07'' \<and>
   R (toArcGISNames 7 4095 65536) = ''R00010000'' \<and>
   C (toArcGISNames 7 4095 65536) = ''C00000FFF'' \<and>
   toArcGISNames 7 4095 65536 \<noteq> toArcGISNames 7 65536 4095"
proof -
  have names: "toArcGISNames 7 4095 65536 = \<lparr> L = ''L07'', R = ''R00010000'', C = ''C00000FFF'' \<rparr>"
    by code_simp
  have "toArcGISNames 7 4095 65536 = toArcGISNames 7 65536 4095 \<longrightarrow> (4095::int) = 65536"
    using toArcGISNames_format_injective [of 7 4095 65536 7 65536 4095] by simp
  then show ?thesis using names by auto
qed


section \<open>Tile range: the formula and its order\<close>




section \<open>The example extent\<close>

text \<open>
  Claim C3, as the specification states it: for origin \<open>(0,0)\<close>, tile size 256,
  resolution 1 and extent \<open>(100,100,600,600)\<close> the tile rectangle would be
  \<open>minX = 0, maxX = 2, minY = 0, maxY = 2\<close>. The source computes the rows from
  \<open>originY - y\<close>, so the rectangle it returns for this input is not that one.
\<close>

theorem tileRangeForExtent_example_not_0_2:
  "tileRangeForExtent \<lparr> getOrigin = (0, 0), getTileSize = TileSizeArray [256, 256] \<rparr>
       (100, 100, 600, 600) 1
     \<noteq> Some \<lparr> minX = 0, maxX = 2, minY = 0, maxY = 2 \<rparr>"
  by code_simp

text \<open>
  Claim C3, amended: for that input the columns are \<open>0..2\<close> and the rows are
  \<open>-3..-1\<close>, since rows grow southward from the origin and the extent lies north of it.
\<close>

theorem tileRangeForExtent_example:
  "tileRangeForExtent \<lparr> getOrigin = (0, 0), getTileSize = TileSizeArray [256, 256] \<rparr>
       (100, 100, 600, 600) 1
     = Some \<lparr> minX = 0, maxX = 2, minY = - 3, maxY = - 1 \<rparr>"
  by code_simp

section \<open>Steps of a task and their results\<close>

lemma andThen_Throws:
  "andThen m f = Throws s' \<longleftrightarrow> m = Throws s' \<or> (\<exists>a s1. m = Returns a s1 \<and> f a s1 = Throws s')"
  by (cases m) (auto simp: andThen_def)

lemma andThen_Returns:
  "andThen m f = Returns b s' \<longleftrightarrow> (\<exists>a s1. m = Returns a s1 \<and> f a s1 = Returns b s')"
  by (cases m) (auto simp: andThen_def)

lemma stateOf_simps [simp]: "stateOf (Throws s) = s" "stateOf (Returns a s) = s"
  by (simp_all add: stateOf_def)

lemma writeTextFile_Returns:
  "writeTextFile env p c s = Returns u s' \<longleftrightarrow>
     \<not> fails env (GetFileHandle p) \<and> \<not> fails env (CreateWritable p) \<and>
     \<not> fails env (WriteFile p) \<and> \<not> fails env (CloseFile p) \<and>
     s' = s\<lparr>files := (files s)(p \<mapsto> c)\<rparr>"
  by (auto simp: writeTextFile_def andThen_def getFileHandle_create_def createWritable_def
      writeAndClose_def split: option.splits)

lemma writeTextFile_Throws:
  assumes "writeTextFile env p c s = Throws s'"
  shows "fails env (GetFileHandle p) \<or> fails env (CreateWritable p) \<or>
         fails env (WriteFile p) \<or> fails env (CloseFile p)"
    and "requests s' = requests s" and "warnings s' = warnings s"
    and "downloadedTiles s' = downloadedTiles s"
    and "downloadedLevelTiles s' = downloadedLevelTiles s"
    and "progress s' = progress s"
    and "files s p \<noteq> None \<Longrightarrow> files s' = files s"
  using assms
  by (auto simp: writeTextFile_def andThen_def getFileHandle_create_def createWritable_def
      writeAndClose_def split: option.splits if_splits)

lemma download_Returns:
  "download env u pathOf s = Returns t s' \<longleftrightarrow>
     (\<exists>resp. fetch env u = Resolved resp \<and>
        (if ok resp
         then \<not> fails env (GetFileHandle (pathOf (if contentType resp = Some ''image/png'' then ''png'' else ''jpeg''))) \<and>
              \<not> fails env (CreateWritable (pathOf (if contentType resp = Some ''image/png'' then ''png'' else ''jpeg''))) \<and>
              \<not> fails env (PipeTo (pathOf (if contentType resp = Some ''image/png'' then ''png'' else ''jpeg''))) \<and>
              t = Some (if contentType resp = Some ''image/png'' then ''png'' else ''jpeg'') \<and>
              s' = s\<lparr>requests := requests s @ [u],
                     files := (files s)(pathOf (if contentType resp = Some ''image/png'' then ''png'' else ''jpeg'')
                                \<mapsto> Bytes (body resp))\<rparr>
         else t = None \<and> s' = s\<lparr>requests := requests s @ [u]\<rparr>))"
  by (auto simp: download_def andThen_def getFileHandle_create_def createWritable_def
      pipeTo_def Let_def split: option.splits fetch_result.splits)

lemma download_Throws:
  assumes "download env u pathOf s = Throws s'"
  shows "warnings s' = warnings s"
    and "downloadedTiles s' = downloadedTiles s"
    and "downloadedLevelTiles s' = downloadedLevelTiles s"
    and "progress s' = progress s"
  using assms
  by (auto simp: download_def andThen_def getFileHandle_create_def createWritable_def
      pipeTo_def Let_def split: option.splits fetch_result.splits if_splits)

lemma download_ReturnsD:
  assumes "download env u pathOf s = Returns t s'"
  shows "\<exists>resp. fetch env u = Resolved resp \<and> requests s' = requests s @ [u] \<and>
           (if ok resp
            then t = Some (if contentType resp = Some ''image/png'' then ''png'' else ''jpeg'') \<and>
                 files s' = (files s)(pathOf (if contentType resp = Some ''image/png'' then ''png'' else ''jpeg'')
                               \<mapsto> Bytes (body resp))
            else t = None \<and> files s' = files s)"
proof -
  from assms obtain resp where r: "fetch env u = Resolved resp"
    and rest: "if ok resp
         then \<not> fails env (GetFileHandle (pathOf (if contentType resp = Some ''image/png'' then ''png'' else ''jpeg''))) \<and>
              \<not> fails env (CreateWritable (pathOf (if contentType resp = Some ''image/png'' then ''png'' else ''jpeg''))) \<and>
              \<not> fails env (PipeTo (pathOf (if contentType resp = Some ''image/png'' then ''png'' else ''jpeg''))) \<and>
              t = Some (if contentType resp = Some ''image/png'' then ''png'' else ''jpeg'') \<and>
              s' = s\<lparr>requests := requests s @ [u],
                     files := (files s)(pathOf (if contentType resp = Some ''image/png'' then ''png'' else ''jpeg'')
                                \<mapsto> Bytes (body resp))\<rparr>
         else t = None \<and> s' = s\<lparr>requests := requests s @ [u]\<rparr>"
    unfolding download_Returns by blast
  show ?thesis
  proof (cases "ok resp")
    case True
    with r rest show ?thesis by (intro exI [of _ resp]) simp
  next
    case False
    with r rest show ?thesis by (intro exI [of _ resp]) simp
  qed
qed

lemma Returns_stateOf: "\<not> is_Throws m \<Longrightarrow> m = Returns () (stateOf m)"
  by (cases m) simp_all

lemma tileTaskBody_Throws_frame:
  assumes "tileTaskBody env md tileSize totalCount Ldir lod x y s = Throws s'"
  shows "warnings s' = warnings s \<and> downloadedTiles s' = downloadedTiles s \<and>
         downloadedLevelTiles s' = downloadedLevelTiles s \<and> progress s' = progress s"
proof -
  let ?first = "if \<not> fileExists env (Ldir, filePath lod x y ''png'') s \<and>
                   \<not> fileExists env (Ldir, filePath lod x y ''jpeg'') s
                then download env (tileUrl md lod x y) (\<lambda>ext. (Ldir, filePath lod x y ext)) s
                else Returns (if fileExists env (Ldir, filePath lod x y ''png'') s then Some ''png''
                              else if fileExists env (Ldir, filePath lod x y ''jpeg'') s then Some ''jpeg''
                              else None) s"
  from assms consider
      (first) "?first = Throws s'"
    | (world) t s1 p c where "?first = Returns t s1" "writeTextFile env p c s1 = Throws s'"
    by (auto simp: tileTaskBody_def Let_def andThen_Throws)
  then show ?thesis
  proof cases
    case first
    then have "download env (tileUrl md lod x y) (\<lambda>ext. (Ldir, filePath lod x y ext)) s = Throws s'"
      by (simp split: if_splits)
    then show ?thesis by (simp add: download_Throws)
  next
    case world
    have "warnings s1 = warnings s \<and> downloadedTiles s1 = downloadedTiles s \<and>
         downloadedLevelTiles s1 = downloadedLevelTiles s \<and> progress s1 = progress s"
      using world(1) by (auto simp: download_Returns split: if_splits)
    then show ?thesis using writeTextFile_Throws(3-6) [OF world(2)] by simp
  qed
qed

lemma tileTaskBody_Returns_frame:
  assumes "tileTaskBody env md tileSize totalCount Ldir lod x y s = Returns u s'"
  shows "warnings s' = warnings s \<and> downloadedTiles s' = downloadedTiles s + 1 \<and>
         downloadedLevelTiles s' = downloadedLevelTiles s + 1 \<and>
         progress s' = progress s @ [Ratio (downloadedTiles s + 1) totalCount]"
proof -
  let ?first = "if \<not> fileExists env (Ldir, filePath lod x y ''png'') s \<and>
                   \<not> fileExists env (Ldir, filePath lod x y ''jpeg'') s
                then download env (tileUrl md lod x y) (\<lambda>ext. (Ldir, filePath lod x y ext)) s
                else Returns (if fileExists env (Ldir, filePath lod x y ''png'') s then Some ''png''
                              else if fileExists env (Ldir, filePath lod x y ''jpeg'') s then Some ''jpeg''
                              else None) s"
  from assms obtain t s1 fs where first: "?first = Returns t s1"
    and s': "s' = setProgress (Ratio (downloadedTiles s1 + 1) totalCount)
                    (s1\<lparr>files := fs, downloadedTiles := downloadedTiles s1 + 1,
                        downloadedLevelTiles := downloadedLevelTiles s1 + 1\<rparr>)"
    by (auto simp: tileTaskBody_def Let_def andThen_Returns writeTextFile_Returns)
  have "warnings s1 = warnings s \<and> downloadedTiles s1 = downloadedTiles s \<and>
        downloadedLevelTiles s1 = downloadedLevelTiles s \<and> progress s1 = progress s"
    using first by (auto simp: download_Returns split: if_splits)
  then show ?thesis by (simp add: s' setProgress_def)
qed

lemma filePath_inject [simp]: "filePath lod x y e = filePath lod x y e' \<longleftrightarrow> e = e'"
  by (simp add: filePath_def Let_def)

lemma tileTaskBody_visible:
  assumes "fileExists env (Ldir, filePath lod x y ''png'') s \<or>
           fileExists env (Ldir, filePath lod x y ''jpeg'') s"
  shows "tileTaskBody env md tileSize totalCount Ldir lod x y s =
     andThen (writeTextFile env
                (Ldir, filePath lod x y
                   (if fileExists env (Ldir, filePath lod x y ''png'') s then ''pgw'' else ''jgw''))
                (Lines (worldFileLines (tileInfo_origin md) tileSize (resolution lod) x y)) s)
       (\<lambda>_ s2. Returns ()
          (setProgress (Ratio (downloadedTiles s2 + 1) totalCount)
             (s2\<lparr>downloadedTiles := downloadedTiles s2 + 1,
                 downloadedLevelTiles := downloadedLevelTiles s2 + 1\<rparr>)))"
proof (cases "fileExists env (Ldir, filePath lod x y ''png'') s")
  case True
  then show ?thesis by (simp add: tileTaskBody_def Let_def andThen_def)
next
  case False
  with assms have "fileExists env (Ldir, filePath lod x y ''jpeg'') s" by simp
  with False show ?thesis by (simp add: tileTaskBody_def Let_def andThen_def)
qed

lemma tileTaskBody_ReturnsD:
  assumes "tileTaskBody env md tileSize totalCount Ldir lod x y s = Returns u s'"
  shows "\<exists>t s0.
        (if \<not> fileExists env (Ldir, filePath lod x y ''png'') s \<and>
            \<not> fileExists env (Ldir, filePath lod x y ''jpeg'') s
         then download env (tileUrl md lod x y) (\<lambda>ext. (Ldir, filePath lod x y ext)) s
         else Returns (if fileExists env (Ldir, filePath lod x y ''png'') s then Some ''png''
                       else if fileExists env (Ldir, filePath lod x y ''jpeg'') s then Some ''jpeg''
                       else None) s) = Returns t s0 \<and>
        writeTextFile env (Ldir, filePath lod x y (if t = Some ''png'' then ''pgw'' else ''jgw''))
          (Lines (worldFileLines (tileInfo_origin md) tileSize (resolution lod) x y)) s0
          = Returns () (s0\<lparr>files := (files s0)
               ((Ldir, filePath lod x y (if t = Some ''png'' then ''pgw'' else ''jgw''))
                  \<mapsto> Lines (worldFileLines (tileInfo_origin md) tileSize (resolution lod) x y))\<rparr>) \<and>
        files s' = (files s0)
               ((Ldir, filePath lod x y (if t = Some ''png'' then ''pgw'' else ''jgw''))
                  \<mapsto> Lines (worldFileLines (tileInfo_origin md) tileSize (resolution lod) x y)) \<and>
        requests s' = requests s0"
proof -
  from assms obtain t s0 s2 where
    first: "(if \<not> fileExists env (Ldir, filePath lod x y ''png'') s \<and>
            \<not> fileExists env (Ldir, filePath lod x y ''jpeg'') s
         then download env (tileUrl md lod x y) (\<lambda>ext. (Ldir, filePath lod x y ext)) s
         else Returns (if fileExists env (Ldir, filePath lod x y ''png'') s then Some ''png''
                       else if fileExists env (Ldir, filePath lod x y ''jpeg'') s then Some ''jpeg''
                       else None) s) = Returns t s0"
    and w: "writeTextFile env (Ldir, filePath lod x y (if t = Some ''png'' then ''pgw'' else ''jgw''))
          (Lines (worldFileLines (tileInfo_origin md) tileSize (resolution lod) x y)) s0 = Returns () s2"
    and s': "s' = setProgress (Ratio (downloadedTiles s2 + 1) totalCount)
             (s2\<lparr>downloadedTiles := downloadedTiles s2 + 1,
                 downloadedLevelTiles := downloadedLevelTiles s2 + 1\<rparr>)"
    unfolding tileTaskBody_def Let_def andThen_Returns by fastforce
  from w have s2: "s2 = s0\<lparr>files := (files s0)
               ((Ldir, filePath lod x y (if t = Some ''png'' then ''pgw'' else ''jgw''))
                  \<mapsto> Lines (worldFileLines (tileInfo_origin md) tileSize (resolution lod) x y))\<rparr>"
    by (simp add: writeTextFile_Returns)
  show ?thesis
    apply (rule exI [of _ t], rule exI [of _ s0])
    using first w s2 by (simp add: s' setProgress_def)
qed


section \<open>Counters and exceptions\<close>

text \<open>
  Claim C10. A task whose body throws leaves both counters as they were (and logs the
  warning of its handler); a task whose body completes increments each counter by exactly
  one (and logs no warning).
\<close>

theorem tileTask_counters:
  "downloadedTiles (tileTask env md tileSize totalCount Ldir lod x y s) =
     (if is_Throws (tileTaskBody env md tileSize totalCount Ldir lod x y s)
      then downloadedTiles s else downloadedTiles s + 1) \<and>
   downloadedLevelTiles (tileTask env md tileSize totalCount Ldir lod x y s) =
     (if is_Throws (tileTaskBody env md tileSize totalCount Ldir lod x y s)
      then downloadedLevelTiles s else downloadedLevelTiles s + 1) \<and>
   warnings (tileTask env md tileSize totalCount Ldir lod x y s) =
     (if is_Throws (tileTaskBody env md tileSize totalCount Ldir lod x y s)
      then warnings s @ [tileUrl md lod x y] else warnings s)"
proof (cases "tileTaskBody env md tileSize totalCount Ldir lod x y s")
  case (Throws s')
  then show ?thesis using tileTaskBody_Throws_frame [OF Throws] by (simp add: tileTask_def)
next
  case (Returns u s')
  then show ?thesis using tileTaskBody_Returns_frame [OF Returns] by (simp add: tileTask_def)
qed

text \<open>
  The theorem on three tasks for tile \<open>(2,5,5)\<close> over an empty directory: one whose fetch
  is rejected by the network, one whose file cannot be closed after the write, and one
  that completes.
\<close>

theorem tileTask_counters_witness:
  "downloadedTiles (tileTask (serverEnv NetworkError) exampleMetadata (Some 256) 29 ''L02'' lod2 5 5 emptyState) = 0 \<and>
   downloadedLevelTiles (tileTask (serverEnv NetworkError) exampleMetadata (Some 256) 29 ''L02'' lod2 5 5 emptyState) = 0 \<and>
   warnings (tileTask (serverEnv NetworkError) exampleMetadata (Some 256) 29 ''L02'' lod2 5 5 emptyState)
     = [''https://tiles.example/tile/2/5/5''] \<and>
   downloadedTiles (tileTask (closeFailsEnv (Resolved (Response True (Some ''image/png'') ''tile''))) exampleMetadata
     (Some 256) 29 ''L02'' lod2 5 5 emptyState) = 0 \<and>
   downloadedLevelTiles (tileTask (closeFailsEnv (Resolved (Response True (Some ''image/png'') ''tile''))) exampleMetadata
     (Some 256) 29 ''L02'' lod2 5 5 emptyState) = 0 \<and>
   warnings (tileTask (closeFailsEnv (Resolved (Response True (Some ''image/png'') ''tile''))) exampleMetadata
     (Some 256) 29 ''L02'' lod2 5 5 emptyState) = [''https://tiles.example/tile/2/5/5''] \<and>
   downloadedTiles (tileTask (serverEnv (Resolved (Response True (Some ''image/png'') ''tile''))) exampleMetadata
     (Some 256) 29 ''L02'' lod2 5 5 emptyState) = 1 \<and>
   downloadedLevelTiles (tileTask (serverEnv (Resolved (Response True (Some ''image/png'') ''tile''))) exampleMetadata
     (Some 256) 29 ''L02'' lod2 5 5 emptyState) = 1 \<and>
   warnings (tileTask (serverEnv (Resolved (Response True (Some ''image/png'') ''tile''))) exampleMetadata
     (Some 256) 29 ''L02'' lod2 5 5 emptyState) = []"
proof -
  have down: "is_Throws (tileTaskBody (serverEnv NetworkError) exampleMetadata (Some 256) 29 ''L02'' lod2 5 5 emptyState)"
    by code_simp
  have disk: "is_Throws (tileTaskBody (closeFailsEnv (Resolved (Response True (Some ''image/png'') ''tile'')))
      exampleMetadata (Some 256) 29 ''L02'' lod2 5 5 emptyState)"
    by code_simp
  have up: "\<not> is_Throws (tileTaskBody (serverEnv (Resolved (Response True (Some ''image/png'') ''tile'')))
      exampleMetadata (Some 256) 29 ''L02'' lod2 5 5 emptyState)"
    by code_simp
  have u: "tileUrl exampleMetadata lod2 5 5 = ''https://tiles.example/tile/2/5/5''"
    by code_simp
  show ?thesis
    using tileTask_counters [of "serverEnv NetworkError" exampleMetadata "Some 256" 29 "''L02''" lod2 5 5 emptyState]
      tileTask_counters [of "closeFailsEnv (Resolved (Response True (Some ''image/png'') ''tile''))" exampleMetadata
        "Some 256" 29 "''L02''" lod2 5 5 emptyState]
      tileTask_counters [of "serverEnv (Resolved (Response True (Some ''image/png'') ''tile''))" exampleMetadata
        "Some 256" 29 "''L02''" lod2 5 5 emptyState]
      down disk up u
    by (simp add: emptyState_def)
qed


section \<open>Format of a fetched tile\<close>

text \<open>
  Claim C9. When no image of the tile is found, the fetch succeeds with content type
  \<open>ct\<close> and body \<open>bytes\<close>, and the task completes, the files of the directory afterwards
  are those before, with the body under the extension \<open>png\<close> when \<open>ct\<close> is exactly
  \<open>image/png\<close> and under \<open>jpeg\<close> otherwise, and the world file under \<open>pgw\<close> in the first
  case and \<open>jgw\<close> in the second.
\<close>

theorem fetched_tile_format:
  assumes "\<not> fileExists env (Ldir, filePath lod x y ''png'') s"
    and "\<not> fileExists env (Ldir, filePath lod x y ''jpeg'') s"
    and "fetch env (tileUrl md lod x y) = Resolved (Response True ct bytes)"
    and "tileTaskBody env md tileSize totalCount Ldir lod x y s = Returns () s'"
  shows "files s' =
           (files s)
             ((Ldir, filePath lod x y (if ct = Some ''image/png'' then ''png'' else ''jpeg''))
                \<mapsto> Bytes bytes,
              (Ldir, filePath lod x y (if ct = Some ''image/png'' then ''pgw'' else ''jgw''))
                \<mapsto> Lines (worldFileLines (tileInfo_origin md) tileSize (resolution lod) x y))"
  using assms
  by (auto simp: tileTaskBody_def Let_def andThen_Returns writeTextFile_Returns download_Returns
      setProgress_def)

text \<open>
  The theorem on tile \<open>(2,5,5)\<close> over an empty directory, for a response declared
  \<open>image/png\<close> and for a response without a content type.
\<close>

theorem fetched_tile_format_witness:
  "files (stateOf (tileTaskBody (serverEnv (Resolved (Response True (Some ''image/png'') ''tile'')))
       exampleMetadata (Some 256) 29 ''L02'' lod2 5 5 emptyState))
     = Map.empty
         ((''L02'', ''R00000005C00000005.png'') \<mapsto> Bytes ''tile'',
          (''L02'', ''R00000005C00000005.pgw'') \<mapsto>
             Lines (worldFileLines (0, 0) (Some 256) (1 / 4) 5 5)) \<and>
   files (stateOf (tileTaskBody (serverEnv (Resolved (Response True None ''tile'')))
       exampleMetadata (Some 256) 29 ''L02'' lod2 5 5 emptyState))
     = Map.empty
         ((''L02'', ''R00000005C00000005.jpeg'') \<mapsto> Bytes ''tile'',
          (''L02'', ''R00000005C00000005.jgw'') \<mapsto>
             Lines (worldFileLines (0, 0) (Some 256) (1 / 4) 5 5))"
proof -
  let ?png = "serverEnv (Resolved (Response True (Some ''image/png'') ''tile''))"
  let ?other = "serverEnv (Resolved (Response True None ''tile''))"
  have names: "filePath lod2 5 5 ''png'' = ''R00000005C00000005.png''"
      "filePath lod2 5 5 ''pgw'' = ''R00000005C00000005.pgw''"
      "filePath lod2 5 5 ''jpeg'' = ''R00000005C00000005.jpeg''"
      "filePath lod2 5 5 ''jgw'' = ''R00000005C00000005.jgw''"
    by code_simp+
  have sel: "tileInfo_origin exampleMetadata = (0, 0)" "resolution lod2 = 1 / 4"
    by (simp_all add: exampleMetadata_def lod2_def)
  have absent: "\<not> fileExists e (''L02'', n) emptyState" for e n
    by (simp add: fileExists_def emptyState_def)
  have answers: "fetch ?png u = Resolved (Response True (Some ''image/png'') ''tile'')"
      "fetch ?other u = Resolved (Response True None ''tile'')" for u
    by (simp_all add: serverEnv_def)
  have "\<not> is_Throws (tileTaskBody ?png exampleMetadata (Some 256) 29 ''L02'' lod2 5 5 emptyState)"
    by code_simp
  then have 1: "tileTaskBody ?png exampleMetadata (Some 256) 29 ''L02'' lod2 5 5 emptyState
     = Returns () (stateOf (tileTaskBody ?png exampleMetadata (Some 256) 29 ''L02'' lod2 5 5 emptyState))"
    by (rule Returns_stateOf)
  have "\<not> is_Throws (tileTaskBody ?other exampleMetadata (Some 256) 29 ''L02'' lod2 5 5 emptyState)"
    by code_simp
  then have 2: "tileTaskBody ?other exampleMetadata (Some 256) 29 ''L02'' lod2 5 5 emptyState
     = Returns () (stateOf (tileTaskBody ?other exampleMetadata (Some 256) 29 ''L02'' lod2 5 5 emptyState))"
    by (rule Returns_stateOf)
  show ?thesis
    using fetched_tile_format [OF absent absent answers(1) 1] fetched_tile_format [OF absent absent answers(2) 2]
    by (simp add: names sel emptyState_def)
qed


section \<open>Running a task twice\<close>

text \<open>
  Claim C7, as the specification states it: a second run for the same tile over the same
  directory issues no further request. For a tile that the server does not have, the
  first run leaves no image, and the second run fetches again.
\<close>

theorem materialize_twice_refetches_missing_tile:
  "requests (tileTask (serverEnv notFound) exampleMetadata (Some 256) 29 ''L02'' lod2 5 5
       (tileTask (serverEnv notFound) exampleMetadata (Some 256) 29 ''L02'' lod2 5 5 emptyState))
     \<noteq> requests (tileTask (serverEnv notFound) exampleMetadata (Some 256) 29 ''L02'' lod2 5 5 emptyState)"
  by code_simp

text \<open>
  Claim C7, amended: when the first run completes and leaves an image of the tile that the
  existence probe finds, a second run in the same environment completes, issues no
  request and leaves every file as it was.
\<close>

theorem materialize_idempotent:
  assumes run1: "tileTaskBody env md tileSize totalCount Ldir lod x y s = Returns () s1"
    and seen: "fileExists env (Ldir, filePath lod x y ''png'') s1 \<or>
               fileExists env (Ldir, filePath lod x y ''jpeg'') s1"
  shows "\<exists>s2. tileTaskBody env md tileSize totalCount Ldir lod x y s1 = Returns () s2 \<and>
              requests s2 = requests s1 \<and> files s2 = files s1"
proof -
  let ?png = "(Ldir, filePath lod x y ''png'')"
  let ?jpeg = "(Ldir, filePath lod x y ''jpeg'')"
  let ?c = "Lines (worldFileLines (tileInfo_origin md) tileSize (resolution lod) x y)"
  from tileTaskBody_ReturnsD [OF run1] obtain t s0 where
    first: "(if \<not> fileExists env ?png s \<and> \<not> fileExists env ?jpeg s
             then download env (tileUrl md lod x y) (\<lambda>ext. (Ldir, filePath lod x y ext)) s
             else Returns (if fileExists env ?png s then Some ''png''
                           else if fileExists env ?jpeg s then Some ''jpeg'' else None) s)
            = Returns t s0"
    and w: "writeTextFile env (Ldir, filePath lod x y (if t = Some ''png'' then ''pgw'' else ''jgw'')) ?c s0
            = Returns () (s0\<lparr>files := (files s0)
                ((Ldir, filePath lod x y (if t = Some ''png'' then ''pgw'' else ''jgw'')) \<mapsto> ?c)\<rparr>)"
    and files1: "files s1 = (files s0)
                ((Ldir, filePath lod x y (if t = Some ''png'' then ''pgw'' else ''jgw'')) \<mapsto> ?c)"
    by blast
  let ?wf = "(Ldir, filePath lod x y (if t = Some ''png'' then ''pgw'' else ''jgw''))"
  have other: "files s1 ?png = files s0 ?png" "files s1 ?jpeg = files s0 ?jpeg"
    by (simp_all add: files1)
  have vis1: "fileExists env ?png s1 \<longleftrightarrow> t = Some ''png''"
  proof (cases "\<not> fileExists env ?png s \<and> \<not> fileExists env ?jpeg s")
    case True
    with first have "download env (tileUrl md lod x y) (\<lambda>ext. (Ldir, filePath lod x y ext)) s = Returns t s0"
      by simp
    from download_ReturnsD [OF this] obtain resp where
      rest: "if ok resp
         then t = Some (if contentType resp = Some ''image/png'' then ''png'' else ''jpeg'') \<and>
              files s0 = (files s)((Ldir, filePath lod x y (if contentType resp = Some ''image/png'' then ''png'' else ''jpeg''))
                                \<mapsto> Bytes (body resp))
         else t = None \<and> files s0 = files s"
      by blast
    show ?thesis
    proof (cases "ok resp")
      case False
      with rest True show ?thesis by (simp add: fileExists_def other)
    next
      case ok: True
      show ?thesis
      proof (cases "contentType resp = Some ''image/png''")
        case True
        with rest ok have t: "t = Some ''png''" and f0: "files s0 ?jpeg = files s ?jpeg" by simp_all
        have "\<not> fileExists env ?jpeg s1" using \<open>\<not> fileExists env ?png s \<and> \<not> fileExists env ?jpeg s\<close>
          by (simp add: fileExists_def other f0)
        with seen t show ?thesis by simp
      next
        case False
        with rest ok have t: "t = Some ''jpeg''" and f0: "files s0 ?png = files s ?png" by simp_all
        have "\<not> fileExists env ?png s1" using \<open>\<not> fileExists env ?png s \<and> \<not> fileExists env ?jpeg s\<close>
          by (simp add: fileExists_def other f0)
        with t show ?thesis by simp
      qed
    qed
  next
    case False
    with first have "s0 = s" and t: "t = (if fileExists env ?png s then Some ''png''
                           else if fileExists env ?jpeg s then Some ''jpeg'' else None)"
      by (simp_all split: if_splits)
    then have "fileExists env ?png s1 = fileExists env ?png s"
      by (simp add: fileExists_def other)
    with t False show ?thesis by auto
  qed
  have w1: "writeTextFile env ?wf ?c s1 = Returns () (s1\<lparr>files := (files s1)(?wf \<mapsto> ?c)\<rparr>)"
    using w by (simp add: writeTextFile_Returns)
  have same: "(files s1)(?wf \<mapsto> ?c) = files s1"
    by (simp add: files1)
  have "tileTaskBody env md tileSize totalCount Ldir lod x y s1 =
      Returns ()
        (setProgress (Ratio (downloadedTiles s1 + 1) totalCount)
           (s1\<lparr>files := (files s1)(?wf \<mapsto> ?c), downloadedTiles := downloadedTiles s1 + 1,
               downloadedLevelTiles := downloadedLevelTiles s1 + 1\<rparr>))"
    unfolding tileTaskBody_visible [OF seen] vis1 w1 by (simp add: andThen_def)
  then show ?thesis by (simp add: same setProgress_def)
qed


text \<open>
  The theorem on tile \<open>(2,5,5)\<close> over an empty directory and a server that answers with a
  PNG image: the second run finds the image of the first.
\<close>

theorem materialize_idempotent_witness:
  "\<exists>s2. tileTaskBody (serverEnv (Resolved (Response True (Some ''image/png'') ''tile''))) exampleMetadata
            (Some 256) 29 ''L02'' lod2 5 5
            (stateOf (tileTaskBody (serverEnv (Resolved (Response True (Some ''image/png'') ''tile'')))
               exampleMetadata (Some 256) 29 ''L02'' lod2 5 5 emptyState))
          = Returns () s2 \<and>
        requests s2 = [''https://tiles.example/tile/2/5/5''] \<and>
        files s2 = files (stateOf (tileTaskBody (serverEnv (Resolved (Response True (Some ''image/png'') ''tile'')))
               exampleMetadata (Some 256) 29 ''L02'' lod2 5 5 emptyState))"
proof -
  let ?env = "serverEnv (Resolved (Response True (Some ''image/png'') ''tile''))"
  let ?s1 = "stateOf (tileTaskBody ?env exampleMetadata (Some 256) 29 ''L02'' lod2 5 5 emptyState)"
  have "\<not> is_Throws (tileTaskBody ?env exampleMetadata (Some 256) 29 ''L02'' lod2 5 5 emptyState)"
    by code_simp
  then have run1: "tileTaskBody ?env exampleMetadata (Some 256) 29 ''L02'' lod2 5 5 emptyState
      = Returns () ?s1"
    by (rule Returns_stateOf)
  have seen: "fileExists ?env (''L02'', filePath lod2 5 5 ''png'') ?s1 \<or>
              fileExists ?env (''L02'', filePath lod2 5 5 ''jpeg'') ?s1"
    by code_simp
  have req: "requests ?s1 = [''https://tiles.example/tile/2/5/5'']"
    by code_simp
  show ?thesis using materialize_idempotent [OF run1 seen] req by simp
qed


section \<open>Total tile count\<close>










section \<open>A tile that the server does not have\<close>

text \<open>
  Claim C1 says that a tile whose fetch gets a response that is not ok leaves no file, is
  logged with a warning, and does not stop the run. Here is tile \<open>(2,5,5)\<close> over an empty
  directory, from a server that answers every request with 404: no image is written, but
  the task goes on to write the world file under \<open>jgw\<close>, logs no warning and counts the
  tile as downloaded; the next tile of the level is then fetched.
\<close>

theorem missing_tile_gets_sidecar_and_no_warning:
  "files (tileTask (serverEnv notFound) exampleMetadata (Some 256) 29 ''L02'' lod2 5 5 emptyState)
       (''L02'', ''R00000005C00000005.jgw'')
     = Some (Lines [JString ''0.250000'', JString ''0'', JString ''0'', JNumber (- (1 / 4)),
                    JNumber 320, JNumber (- 320)]) \<and>
   files (tileTask (serverEnv notFound) exampleMetadata (Some 256) 29 ''L02'' lod2 5 5 emptyState)
       (''L02'', ''R00000005C00000005.jpeg'') = None \<and>
   files (tileTask (serverEnv notFound) exampleMetadata (Some 256) 29 ''L02'' lod2 5 5 emptyState)
       (''L02'', ''R00000005C00000005.png'') = None \<and>
   warnings (tileTask (serverEnv notFound) exampleMetadata (Some 256) 29 ''L02'' lod2 5 5 emptyState) = [] \<and>
   downloadedTiles (tileTask (serverEnv notFound) exampleMetadata (Some 256) 29 ''L02'' lod2 5 5 emptyState) = 1 \<and>
   requests (levelTasks (serverEnv notFound) exampleMetadata (Some 256) 29 ''L02'' lod2 [(5, 5), (5, 6)] emptyState)
     = [''https://tiles.example/tile/2/5/5'', ''https://tiles.example/tile/2/6/5'']"
  by code_simp


section \<open>Content of the world file\<close>









end
